theory Spec2Isabelle
  imports Main "HOL-Library.AList" "HOL-Library.Multiset"
begin

section \<open>Values\<close>

text \<open>
  The library handles untyped Python values that come out of, or go into, JSON documents.
  They are modelled by the datatype \<open>json\<close>: \<open>None\<close>, booleans, unbounded integers,
  strings, lists and dictionaries with string keys. A dictionary is an association list in
  insertion (that is, iteration) order; Python dictionaries never hold a key twice, which is
  the predicate \<open>wf_json\<close> below. Strings are \<open>string\<close>, so a character is a code point
  below 256. Floating point numbers are not part of this model.

  A parameter or field of type \<open>Optional[Any]\<close> is a \<open>json\<close> whose value \<open>JNull\<close> is
  Python's \<open>None\<close>, so that "unset" and "set to None" are the same thing, as in the source.
\<close>

datatype json =
    JNull
  | JBool bool
  | JInt int
  | JStr string
  | JArr "json list"
  | JObj "(string \<times> json) list"

type_synonym pydict = "(string \<times> json) list"

type_synonym bytes = "char list"

text \<open>The exceptions raised by the library, and by Python under it.\<close>

datatype error = InvalidRequestError | InvalidStateError | ValueError | TypeError

text \<open>
  Python's \<open>==\<close> on these values: \<open>True == 1\<close> and \<open>False == 0\<close> hold, lists are equal
  when they have the same length and equal items, dictionaries when they have the same number
  of keys and every key of the left one is bound to an equal value in the right one.
\<close>

fun py_eq :: "json \<Rightarrow> json \<Rightarrow> bool"
  and py_eq_list :: "json list \<Rightarrow> json list \<Rightarrow> bool"
where
  "py_eq JNull JNull = True"
| "py_eq (JBool a) (JBool b) = (a = b)"
| "py_eq (JBool a) (JInt j) = ((if a then 1 else 0) = j)"
| "py_eq (JInt i) (JBool b) = (i = (if b then 1 else 0))"
| "py_eq (JInt i) (JInt j) = (i = j)"
| "py_eq (JStr s) (JStr t) = (s = t)"
| "py_eq (JArr xs) (JArr ys) = py_eq_list xs ys"
| "py_eq (JObj xs) (JObj ys) =
     (length xs = length ys \<and>
      list_all (\<lambda>(k, v). case map_of ys k of None \<Rightarrow> False | Some w \<Rightarrow> py_eq v w) xs)"
| "py_eq _ _ = False"
| "py_eq_list [] [] = True"
| "py_eq_list (x # xs) (y # ys) = (py_eq x y \<and> py_eq_list xs ys)"
| "py_eq_list _ _ = False"

text \<open>Truthiness, as tested by \<open>if self.schema:\<close>.\<close>

fun py_bool :: "json \<Rightarrow> bool" where
  "py_bool JNull = False"
| "py_bool (JBool b) = b"
| "py_bool (JInt i) = (i \<noteq> 0)"
| "py_bool (JStr s) = (s \<noteq> [])"
| "py_bool (JArr xs) = (xs \<noteq> [])"
| "py_bool (JObj kvs) = (kvs \<noteq> [])"


section \<open>Strings\<close>

text \<open>
  \<open>str.lower()\<close> on code points below 256: the ASCII capitals and the Latin-1 capitals
  (\<open>0xC0\<close> to \<open>0xDE\<close>, without the multiplication sign \<open>0xD7\<close>) move up by 32.
\<close>

definition lower_char :: "char \<Rightarrow> char" where
  "lower_char c =
     (let n = (of_char c :: nat)
      in if (65 \<le> n \<and> n \<le> 90) \<or> (192 \<le> n \<and> n \<le> 222 \<and> n \<noteq> 215)
         then char_of (n + 32) else c)"

definition lower :: "string \<Rightarrow> string" where
  "lower s = map lower_char s"

definition startswith :: "string \<Rightarrow> string \<Rightarrow> bool" where
  "startswith s p = (take (length p) s = p)"

section \<open>Field names\<close>

definition FIELD_PREFIX :: string where
  "FIELD_PREFIX = ''x-api-concierge-''"

definition REQUEST_FIELD :: string where
  "REQUEST_FIELD = FIELD_PREFIX @ ''request''"

definition RESPONSE_FIELD :: string where
  "RESPONSE_FIELD = FIELD_PREFIX @ ''response''"

definition SCHEMA_FIELD :: string where
  "SCHEMA_FIELD = FIELD_PREFIX @ ''schema''"

definition INSTRUCTIONS_FIELD :: string where
  "INSTRUCTIONS_FIELD = FIELD_PREFIX @ ''instructions''"

definition CLIENT_FIELD :: string where
  "CLIENT_FIELD = FIELD_PREFIX @ ''client''"

definition ERROR_FIELD :: string where
  "ERROR_FIELD = FIELD_PREFIX @ ''error''"

definition STATE_FIELD :: string where
  "STATE_FIELD = FIELD_PREFIX @ ''state''"

definition BASE_FIELD :: string where
  "BASE_FIELD = FIELD_PREFIX @ ''base''"

definition PATH_FIELD :: string where
  "PATH_FIELD = FIELD_PREFIX @ ''path''"

section \<open>The JSON encoder\<close>

text \<open>
  \<open>json.dumps\<close> with its default arguments: \<open>ensure_ascii\<close> is on, the item separator is
  a comma and a space, the key separator a colon and a space. Inside a string the quote, the
  backslash and the five control characters with a short escape are written with a
  backslash; every other character outside \<open>0x20 .. 0x7E\<close> is written as \<open>\uXXXX\<close> with
  four lower-case hexadecimal digits.

  An integer is written in decimal, whatever its size. CPython from version 3.11 refuses by
  default to convert an integer of more than 4300 digits (a limit of the interpreter that
  can be changed or lifted); that limit is not part of this model.
\<close>

definition hex_digit :: "nat \<Rightarrow> char" where
  "hex_digit d = (if d < 10 then char_of (48 + d) else char_of (87 + d))"

definition hex4 :: "nat \<Rightarrow> string" where
  "hex4 n = [hex_digit (n div 4096 mod 16), hex_digit (n div 256 mod 16),
             hex_digit (n div 16 mod 16), hex_digit (n mod 16)]"

definition escape_char :: "char \<Rightarrow> string" where
  "escape_char c =
     (if c = CHR 0x22 then [CHR 0x5C, CHR 0x22]
      else if c = CHR 0x5C then [CHR 0x5C, CHR 0x5C]
      else if c = CHR 0x0A then [CHR 0x5C, CHR ''n'']
      else if c = CHR 0x0D then [CHR 0x5C, CHR ''r'']
      else if c = CHR 0x09 then [CHR 0x5C, CHR ''t'']
      else if c = CHR 0x0C then [CHR 0x5C, CHR ''f'']
      else if c = CHR 0x08 then [CHR 0x5C, CHR ''b'']
      else if (of_char c :: nat) < 32 \<or> 126 < (of_char c :: nat)
        then [CHR 0x5C, CHR ''u''] @ hex4 (of_char c)
      else [c])"

definition encode_basestring_ascii :: "string \<Rightarrow> string" where
  "encode_basestring_ascii s = CHR 0x22 # concat (map escape_char s) @ [CHR 0x22]"

function digits_nat :: "nat \<Rightarrow> string" where
  "digits_nat n =
     (if n < 10 then [char_of (48 + n)]
      else digits_nat (n div 10) @ [char_of (48 + n mod 10)])"
  by pat_completeness auto
termination
  by (relation "measure id") auto

declare digits_nat.simps [simp del]

definition repr_int :: "int \<Rightarrow> string" where
  "repr_int i = (if i < 0 then CHR ''-'' # digits_nat (nat (- i)) else digits_nat (nat i))"

fun join_items :: "string list \<Rightarrow> string" where
  "join_items [] = []"
| "join_items [x] = x"
| "join_items (x # y # ys) = x @ '', '' @ join_items (y # ys)"

fun json_dumps :: "json \<Rightarrow> string" where
  "json_dumps JNull = ''null''"
| "json_dumps (JBool b) = (if b then ''true'' else ''false'')"
| "json_dumps (JInt i) = repr_int i"
| "json_dumps (JStr s) = encode_basestring_ascii s"
| "json_dumps (JArr xs) = ''['' @ join_items (map json_dumps xs) @ '']''"
| "json_dumps (JObj kvs) =
     ''{'' @ join_items (map (\<lambda>(k, v). encode_basestring_ascii k @ '': '' @ json_dumps v) kvs)
       @ ''}''"

section \<open>URL-safe base64\<close>

text \<open>
  \<open>base64.urlsafe_b64encode\<close>: three bytes become four characters of the alphabet
  \<open>A-Z a-z 0-9 - _\<close>; a last group of one or two bytes is padded with \<open>=\<close>.
\<close>

definition b64char :: "nat \<Rightarrow> char" where
  "b64char i =
     (if i < 26 then char_of (65 + i)
      else if i < 52 then char_of (71 + i)
      else if i < 62 then char_of (i - 4)
      else if i = 62 then CHR ''-''
      else CHR ''_'')"

fun urlsafe_b64encode :: "bytes \<Rightarrow> string" where
  "urlsafe_b64encode [] = []"
| "urlsafe_b64encode [a] =
     (let x = (of_char a :: nat)
      in [b64char (x div 4), b64char (x mod 4 * 16), CHR ''='', CHR ''=''])"
| "urlsafe_b64encode [a, b] =
     (let x = (of_char a :: nat); y = (of_char b :: nat)
      in [b64char (x div 4), b64char (x mod 4 * 16 + y div 16), b64char (y mod 16 * 4),
          CHR ''=''])"
| "urlsafe_b64encode (a # b # c # rest) =
     (let x = (of_char a :: nat); y = (of_char b :: nat); z = (of_char c :: nat)
      in [b64char (x div 4), b64char (x mod 4 * 16 + y div 16),
          b64char (y mod 16 * 4 + z div 64), b64char (z mod 64)])
     @ urlsafe_b64encode rest"

section \<open>The JSON decoder\<close>

text \<open>
  \<open>json.loads\<close> with its default arguments, on the values of this model. White space is
  the space, the tab, the line feed and the carriage return. A string ends at the first
  unescaped quote; a control character inside it is an error (strict mode); after a backslash
  come one of the eight short escapes or \<open>u\<close> and four hexadecimal digits of either case.
  A number is an optional minus sign and \<open>0\<close> or a digit sequence without leading zero.

  Two kinds of text lead out of the model, and the decoder of the model answers \<open>None\<close> for
  them as it does for malformed text: a number with a fraction or an exponent (and
  \<open>NaN\<close>, \<open>Infinity\<close>), which Python reads as a float, and an escape \<open>\uXXXX\<close> of a
  code point above 255. No statement below is about such text.
\<close>

definition is_ws :: "char \<Rightarrow> bool" where
  "is_ws c = (c = CHR '' '' \<or> c = CHR 0x09 \<or> c = CHR 0x0A \<or> c = CHR 0x0D)"

definition skip_ws :: "string \<Rightarrow> string" where
  "skip_ws s = dropWhile is_ws s"

definition is_digit :: "char \<Rightarrow> bool" where
  "is_digit c = (48 \<le> (of_char c :: nat) \<and> (of_char c :: nat) \<le> 57)"

definition hex_value :: "char \<Rightarrow> nat option" where
  "hex_value c =
     (let n = (of_char c :: nat)
      in if 48 \<le> n \<and> n \<le> 57 then Some (n - 48)
         else if 97 \<le> n \<and> n \<le> 102 then Some (n - 87)
         else if 65 \<le> n \<and> n \<le> 70 then Some (n - 55)
         else None)"

definition decode_uXXXX :: "char \<Rightarrow> char \<Rightarrow> char \<Rightarrow> char \<Rightarrow> nat option" where
  "decode_uXXXX a b c d =
     (case (hex_value a, hex_value b, hex_value c, hex_value d) of
        (Some h3, Some h2, Some h1, Some h0) \<Rightarrow> Some (h3 * 4096 + h2 * 256 + h1 * 16 + h0)
      | _ \<Rightarrow> None)"

definition backslash :: "char \<Rightarrow> char option" where
  "backslash e =
     (if e = CHR 0x22 then Some (CHR 0x22)
      else if e = CHR 0x5C then Some (CHR 0x5C)
      else if e = CHR ''/'' then Some (CHR ''/'')
      else if e = CHR ''b'' then Some (CHR 0x08)
      else if e = CHR ''f'' then Some (CHR 0x0C)
      else if e = CHR ''n'' then Some (CHR 0x0A)
      else if e = CHR ''r'' then Some (CHR 0x0D)
      else if e = CHR ''t'' then Some (CHR 0x09)
      else None)"

definition cons_result :: "char \<Rightarrow> (string \<times> string) option \<Rightarrow> (string \<times> string) option" where
  "cons_result c r = (case r of None \<Rightarrow> None | Some (str, rest) \<Rightarrow> Some (c # str, rest))"

fun scanstring :: "string \<Rightarrow> (string \<times> string) option" where
  "scanstring [] = None"
| "scanstring (c # cs) =
     (if c = CHR 0x22 then Some ([], cs)
      else if c = CHR 0x5C then
        (case cs of
           [] \<Rightarrow> None
         | e # es \<Rightarrow>
             if e = CHR ''u'' then
               (case es of
                  h3 # h2 # h1 # h0 # es' \<Rightarrow>
                    (case decode_uXXXX h3 h2 h1 h0 of
                       None \<Rightarrow> None
                     | Some uni \<Rightarrow> if uni < 256 then cons_result (char_of uni) (scanstring es') else None)
                | _ \<Rightarrow> None)
             else
               (case backslash e of
                  None \<Rightarrow> None
                | Some ch \<Rightarrow> cons_result ch (scanstring es)))
      else if (of_char c :: nat) < 32 then None
      else cons_result c (scanstring cs))"

definition float_follows :: "string \<Rightarrow> bool" where
  "float_follows r =
     (case r of
        [] \<Rightarrow> False
      | c # r1 \<Rightarrow>
          if c = CHR ''.'' then (case r1 of [] \<Rightarrow> False | d # _ \<Rightarrow> is_digit d)
          else if c = CHR ''e'' \<or> c = CHR ''E'' then
            (case r1 of
               [] \<Rightarrow> False
             | d # r2 \<Rightarrow>
                 if d = CHR ''+'' \<or> d = CHR ''-''
                 then (case r2 of [] \<Rightarrow> False | d2 # _ \<Rightarrow> is_digit d2)
                 else is_digit d)
          else False)"

definition int_of_digits :: "string \<Rightarrow> int" where
  "int_of_digits ds = foldl (\<lambda>acc d. acc * 10 + (int (of_char d) - 48)) 0 ds"

definition match_number :: "string \<Rightarrow> (json \<times> string) option" where
  "match_number s =
     (let neg = (case s of [] \<Rightarrow> False | c # _ \<Rightarrow> c = CHR ''-'');
          s1 = (if neg then tl s else s)
      in case s1 of
           [] \<Rightarrow> None
         | d # t \<Rightarrow>
             if \<not> is_digit d then None
             else
               let ds = (if d = CHR ''0'' then [d] else d # takeWhile is_digit t);
                   r = (if d = CHR ''0'' then t else dropWhile is_digit t)
               in if float_follows r then None
                  else Some (JInt ((if neg then - 1 else 1) * int_of_digits ds), r))"

text \<open>
  The recursive descent of \<open>scan_once\<close>, \<open>JSONArray\<close> and \<open>JSONObject\<close>. The first
  argument bounds the number of nested calls; \<open>json_loads\<close> starts it above the length of
  the text. \<open>JSONArray_loop\<close> starts at an item, \<open>JSONObject_loop\<close> behind the opening
  quote of a key. \<open>dict(pairs)\<close> keeps the first position of a repeated key and its last
  value.
\<close>

definition dict_of_pairs :: "(string \<times> json) list \<Rightarrow> pydict" where
  "dict_of_pairs pairs = foldl (\<lambda>d (k, v). AList.update k v d) [] pairs"

fun scan_once :: "nat \<Rightarrow> string \<Rightarrow> (json \<times> string) option"
  and JSONArray_loop :: "nat \<Rightarrow> string \<Rightarrow> (json list \<times> string) option"
  and JSONObject_loop :: "nat \<Rightarrow> string \<Rightarrow> ((string \<times> json) list \<times> string) option"
where
  "scan_once 0 s = None"
| "scan_once (Suc n) s =
     (case s of
        [] \<Rightarrow> None
      | c # cs \<Rightarrow>
          if c = CHR 0x22 then
            (case scanstring cs of None \<Rightarrow> None | Some (str, r) \<Rightarrow> Some (JStr str, r))
          else if c = CHR ''{'' then
            (case skip_ws cs of
               [] \<Rightarrow> None
             | c1 # r1 \<Rightarrow>
                 if c1 = CHR ''}'' then Some (JObj [], r1)
                 else if c1 = CHR 0x22 then
                   (case JSONObject_loop n r1 of
                      None \<Rightarrow> None
                    | Some (pairs, r) \<Rightarrow> Some (JObj (dict_of_pairs pairs), r))
                 else None)
          else if c = CHR ''['' then
            (case skip_ws cs of
               [] \<Rightarrow> None
             | c1 # r1 \<Rightarrow>
                 if c1 = CHR '']'' then Some (JArr [], r1)
                 else
                   (case JSONArray_loop n (c1 # r1) of
                      None \<Rightarrow> None
                    | Some (vs, r) \<Rightarrow> Some (JArr vs, r)))
          else if c = CHR ''n'' \<and> startswith s ''null'' then Some (JNull, drop 4 s)
          else if c = CHR ''t'' \<and> startswith s ''true'' then Some (JBool True, drop 4 s)
          else if c = CHR ''f'' \<and> startswith s ''false'' then Some (JBool False, drop 5 s)
          else match_number s)"
| "JSONArray_loop 0 s = None"
| "JSONArray_loop (Suc n) s =
     (case scan_once n s of
        None \<Rightarrow> None
      | Some (v, r) \<Rightarrow>
          (case skip_ws r of
             [] \<Rightarrow> None
           | c # r1 \<Rightarrow>
               if c = CHR '']'' then Some ([v], r1)
               else if c = CHR '','' then
                 (case JSONArray_loop n (skip_ws r1) of
                    None \<Rightarrow> None
                  | Some (vs, r2) \<Rightarrow> Some (v # vs, r2))
               else None))"
| "JSONObject_loop 0 s = None"
| "JSONObject_loop (Suc n) s =
     (case scanstring s of
        None \<Rightarrow> None
      | Some (key, r) \<Rightarrow>
          (case skip_ws r of
             [] \<Rightarrow> None
           | c # r1 \<Rightarrow>
               if c \<noteq> CHR '':'' then None
               else
                 (case scan_once n (skip_ws r1) of
                    None \<Rightarrow> None
                  | Some (v, r2) \<Rightarrow>
                      (case skip_ws r2 of
                         [] \<Rightarrow> None
                       | c2 # r3 \<Rightarrow>
                           if c2 = CHR ''}'' then Some ([(key, v)], r3)
                           else if c2 = CHR '','' then
                             (case skip_ws r3 of
                                [] \<Rightarrow> None
                              | c3 # r4 \<Rightarrow>
                                  if c3 \<noteq> CHR 0x22 then None
                                  else
                                    (case JSONObject_loop n r4 of
                                       None \<Rightarrow> None
                                     | Some (pairs, r5) \<Rightarrow> Some ((key, v) # pairs, r5)))
                           else None))))"

text \<open>
  \<open>json.loads\<close> of a byte string first decodes it to text. Bytes from \<open>0x01\<close> to
  \<open>0x7F\<close> are UTF-8 for themselves. A zero byte among the first two selects UTF-16 or
  UTF-32, and a byte from \<open>0x80\<close> starts a longer UTF-8 sequence: both are outside this
  model. A zero byte further on is read as the control character \<open>U+0000\<close>, which no JSON
  text may hold. Then one value is read, with white space allowed around it and nothing
  else behind it.
\<close>

definition json_loads :: "bytes \<Rightarrow> json option" where
  "json_loads b =
     (if list_ex (\<lambda>c. (of_char c :: nat) = 0 \<or> 128 \<le> (of_char c :: nat)) b then None
      else
        let s = skip_ws b
        in case scan_once (Suc (length s)) s of
             None \<Rightarrow> None
           | Some (obj, r) \<Rightarrow> if skip_ws r = [] then Some obj else None)"

text \<open>
  \<open>base64.urlsafe_b64decode\<close>: the argument must be a string of ASCII characters (or
  bytes; anything else, \<open>None\<close> included, is a TypeError). \<open>-\<close> and \<open>_\<close> are read
  as \<open>+\<close> and \<open>/\<close>, then \<open>binascii.a2b_base64\<close> runs in its non-strict mode: characters
  outside the alphabet are skipped, a complete padding ends the input, and input that ends
  inside a group of four is an error. \<open>quad_pos\<close> is the position in the group,
  \<open>leftchar\<close> the bits left over from the previous character, \<open>pads\<close> the number of
  padding characters seen since the last character of the alphabet.
\<close>

definition b64value :: "char \<Rightarrow> nat option" where
  "b64value ch =
     (let c = (of_char ch :: nat)
      in if 65 \<le> c \<and> c \<le> 90 then Some (c - 65)
         else if 97 \<le> c \<and> c \<le> 122 then Some (c - 71)
         else if 48 \<le> c \<and> c \<le> 57 then Some (c + 4)
         else if ch = CHR ''+'' \<or> ch = CHR ''-'' then Some 62
         else if ch = CHR ''/'' \<or> ch = CHR ''_'' then Some 63
         else None)"

definition emit :: "nat \<Rightarrow> bytes option \<Rightarrow> bytes option" where
  "emit b r = (case r of None \<Rightarrow> None | Some bs \<Rightarrow> Some (char_of b # bs))"

fun a2b_base64 :: "string \<Rightarrow> nat \<Rightarrow> nat \<Rightarrow> nat \<Rightarrow> bytes option" where
  "a2b_base64 [] quad_pos leftchar pads = (if quad_pos \<noteq> 0 then None else Some [])"
| "a2b_base64 (this_ch # rest) quad_pos leftchar pads =
     (if this_ch = CHR ''='' then
        (if 2 \<le> quad_pos \<and> 4 \<le> quad_pos + (pads + 1) then Some []
         else a2b_base64 rest quad_pos leftchar (if 2 \<le> quad_pos then pads + 1 else pads))
      else
        (case b64value this_ch of
           None \<Rightarrow> a2b_base64 rest quad_pos leftchar pads
         | Some v \<Rightarrow>
             if quad_pos = 0 then a2b_base64 rest 1 v 0
             else if quad_pos = 1 then
               emit (leftchar * 4 + v div 16) (a2b_base64 rest 2 (v mod 16) 0)
             else if quad_pos = 2 then
               emit (leftchar * 16 + v div 4) (a2b_base64 rest 3 (v mod 4) 0)
             else emit (leftchar * 64 + v) (a2b_base64 rest 0 0 0)))"

definition urlsafe_b64decode :: "json \<Rightarrow> bytes option" where
  "urlsafe_b64decode s =
     (case s of
        JStr str \<Rightarrow>
          if list_all (\<lambda>c. (of_char c :: nat) < 128) str then a2b_base64 str 0 0 0 else None
      | _ \<Rightarrow> None)"

section \<open>The state codec\<close>

text \<open>
  \<open>_serialize\<close>: the text written by \<open>json.dumps\<close> is ASCII, so \<open>encode("ascii")\<close>
  and the final \<open>str(..., "ascii")\<close> change nothing in it.
\<close>

definition serialize :: "json \<Rightarrow> string" where
  "serialize data = urlsafe_b64encode (json_dumps data)"

text \<open>
  The set written between the brackets of the pattern \<open>[^A-Za-z0-9,;-_=]\<close>: the three
  ranges, the comma, the range from \<open>;\<close> (\<open>0x3B\<close>) to \<open>_\<close> (\<open>0x5F\<close>) and the equals
  sign. \<open>re.match\<close> tries the pattern at the start of the string only, and the pattern is
  one character long.
\<close>

definition pattern_set :: "char \<Rightarrow> bool" where
  "pattern_set c =
     (let n = (of_char c :: nat)
      in (65 \<le> n \<and> n \<le> 90) \<or> (97 \<le> n \<and> n \<le> 122) \<or> (48 \<le> n \<and> n \<le> 57)
         \<or> c = CHR '','' \<or> (59 \<le> n \<and> n \<le> 95) \<or> c = CHR ''='')"

definition re_match :: "string \<Rightarrow> bool" where
  "re_match state = (case state of [] \<Rightarrow> False | c # _ \<Rightarrow> \<not> pattern_set c)"

definition serialize_state :: "json \<Rightarrow> bool \<Rightarrow> error + string" where
  "serialize_state state serialized =
     (if serialized then Inr (serialize state)
      else case state of
        JStr s \<Rightarrow> if re_match s then Inl ValueError else Inr s
      | _ \<Rightarrow> Inl TypeError)"

text \<open>
  \<open>_deserialize_state\<close>. Every exception of the decoding, whatever its kind, is turned
  into \<open>InvalidStateError\<close>.
\<close>

definition deserialize_state :: "json \<Rightarrow> bool \<Rightarrow> error + json" where
  "deserialize_state state_data serialized =
     (if \<not> serialized then Inr state_data
      else case urlsafe_b64decode state_data of
             None \<Rightarrow> Inl InvalidStateError
           | Some b \<Rightarrow>
               (case json_loads b of None \<Rightarrow> Inl InvalidStateError | Some v \<Rightarrow> Inr v))"

section \<open>Messages\<close>

text \<open>
  A mapping received by the library is a \<open>pydict\<close>, read in iteration order by the loops
  below. The dataclasses are records; where two classes have a field of the same name, the
  fields of the later record carry a prefix. Fields annotated \<open>Optional[str]\<close> and
  \<open>Optional[dict]\<close> are options.
\<close>

record SchemaRequest =
  client :: json

text \<open>
  \<open>is_schema_request\<close> returns from inside its loop at the first key that equals the
  request field without regard to case. \<open>client_loop\<close> is the loop of \<open>load\<close>: it leaves
  at the first key that equals the client field, and the client stays \<open>None\<close> when there
  is none.
\<close>

fun is_schema_request :: "pydict \<Rightarrow> bool" where
  "is_schema_request [] = False"
| "is_schema_request ((data_field, data_value) # rest) =
     (if lower data_field = lower REQUEST_FIELD then py_eq data_value (JStr ''schema'')
      else is_schema_request rest)"

fun client_loop :: "pydict \<Rightarrow> json" where
  "client_loop [] = JNull"
| "client_loop ((data_field, data_value) # rest) =
     (if lower data_field = lower CLIENT_FIELD then data_value else client_loop rest)"

definition load :: "pydict \<Rightarrow> error + SchemaRequest" where
  "load data =
     (if \<not> is_schema_request data then Inl InvalidRequestError
      else Inr \<lparr>client = client_loop data\<rparr>)"

record SchemaResponse =
  schema :: json
  instructions :: "string option"
  state :: json
  base :: "pydict option"
  path :: "string option"

definition SchemaResponse_init ::
  "json \<Rightarrow> string option \<Rightarrow> json \<Rightarrow> pydict option \<Rightarrow> string option \<Rightarrow> error + SchemaResponse"
where
  "SchemaResponse_init sch ins st b p =
     (if p \<noteq> None \<and> b = None then Inl ValueError
      else Inr \<lparr>schema = sch, instructions = ins, state = st, base = b, path = p\<rparr>)"

text \<open>
  The conditional assignments shared by the four emitters: \<open>instructions\<close>, \<open>state\<close> and
  \<open>path\<close> are written when they are not \<open>None\<close>, and the state goes through
  \<open>_serialize_state\<close>, whose exception leaves the emitter. An assignment to a dictionary
  keeps the position of a key that is present and appends a new one, as \<open>AList.update\<close>
  does. The path is written only inside the branch of a base that is not \<open>None\<close>.
\<close>

definition set_instructions :: "string option \<Rightarrow> pydict \<Rightarrow> pydict" where
  "set_instructions ins d =
     (case ins of None \<Rightarrow> d | Some i \<Rightarrow> AList.update INSTRUCTIONS_FIELD (JStr i) d)"

definition set_state :: "json \<Rightarrow> bool \<Rightarrow> pydict \<Rightarrow> error + pydict" where
  "set_state st serialized_state d =
     (if st = JNull then Inr d
      else case serialize_state st serialized_state of
             Inl e \<Rightarrow> Inl e
           | Inr s \<Rightarrow> Inr (AList.update STATE_FIELD (JStr s) d))"

definition set_path :: "string option \<Rightarrow> pydict \<Rightarrow> pydict" where
  "set_path p d = (case p of None \<Rightarrow> d | Some q \<Rightarrow> AList.update PATH_FIELD (JStr q) d)"

definition get_payload :: "SchemaResponse \<Rightarrow> bool \<Rightarrow> error + pydict" where
  "get_payload self serialized_state =
     (let payload = [(RESPONSE_FIELD, JStr ''schema''), (SCHEMA_FIELD, schema self)];
          payload = set_instructions (instructions self) payload
      in case set_state (state self) serialized_state payload of
           Inl e \<Rightarrow> Inl e
         | Inr payload \<Rightarrow>
             (case base self of
                None \<Rightarrow> Inr payload
              | Some b \<Rightarrow> Inr (set_path (path self) (AList.update BASE_FIELD (JObj b) payload))))"

definition get_headers :: "SchemaResponse \<Rightarrow> bool \<Rightarrow> error + pydict" where
  "get_headers self serialized_state =
     (let headers = [(RESPONSE_FIELD, JStr ''schema''),
                     (SCHEMA_FIELD, JStr (serialize (schema self)))];
          headers = set_instructions (instructions self) headers
      in case set_state (state self) serialized_state headers of
           Inl e \<Rightarrow> Inl e
         | Inr headers \<Rightarrow>
             (case base self of
                None \<Rightarrow> Inr headers
              | Some b \<Rightarrow>
                  Inr (set_path (path self)
                         (AList.update BASE_FIELD (JStr (serialize (JObj b))) headers))))"

record InvocationRequest =
  payload :: json
  inv_client :: json
  inv_state :: json

text \<open>
  \<open>_identify\<close>: the loop carries its variables \<open>request\<close> and \<open>state\<close>, both \<open>None\<close>
  at the start. A request field with a value other than \<open>invoke\<close> returns from inside the
  loop; a state field is looked at only when the key is not the request field.
\<close>

fun identify_loop :: "pydict \<Rightarrow> json \<Rightarrow> json \<Rightarrow> bool \<times> json" where
  "identify_loop [] request st = (if request = JNull then (False, JNull) else (True, st))"
| "identify_loop ((data_field, data_value) # rest) request st =
     (if lower data_field = lower REQUEST_FIELD then
        (if \<not> py_eq data_value (JStr ''invoke'') then (False, JNull)
         else identify_loop rest data_value st)
      else if lower data_field = lower STATE_FIELD then identify_loop rest request data_value
      else identify_loop rest request st)"

definition identify :: "pydict \<Rightarrow> bool \<times> json" where
  "identify data = identify_loop data JNull JNull"

definition is_invocation_request :: "pydict \<Rightarrow> json \<Rightarrow> bool \<Rightarrow> error + bool" where
  "is_invocation_request data st serialized_state =
     (case identify data of
        (result, data_state) \<Rightarrow>
          if \<not> result then Inr False
          else if st = JNull then Inr True
          else case deserialize_state data_state serialized_state of
                 Inl e \<Rightarrow> Inl e
               | Inr data_state \<Rightarrow> Inr (py_eq st data_state))"

text \<open>
  The loop of \<open>load_from_payload\<close>: an entry whose key does not start with the prefix (a
  case-sensitive test) is copied into the payload; the first remaining key that equals the
  client field sets the client and ends the loop by \<open>break\<close>.
\<close>

fun payload_loop :: "pydict \<Rightarrow> pydict \<Rightarrow> json \<Rightarrow> pydict \<times> json" where
  "payload_loop [] pl cl = (pl, cl)"
| "payload_loop ((data_field, data_value) # rest) pl cl =
     (if \<not> startswith data_field FIELD_PREFIX
        then payload_loop rest (AList.update data_field data_value pl) cl
      else if lower data_field = lower CLIENT_FIELD then (pl, data_value)
      else payload_loop rest pl cl)"

definition load_from_payload :: "pydict \<Rightarrow> bool \<Rightarrow> error + InvocationRequest" where
  "load_from_payload data serialized_state =
     (case identify data of
        (result, st) \<Rightarrow>
          if \<not> result then Inl InvalidRequestError
          else case (if st \<noteq> JNull then deserialize_state st serialized_state else Inr JNull) of
                 Inl e \<Rightarrow> Inl e
               | Inr st' \<Rightarrow>
                   (case payload_loop data [] JNull of
                      (pl, cl) \<Rightarrow> Inr \<lparr>payload = JObj pl, inv_client = cl, inv_state = st'\<rparr>))"

record ErrorResponse =
  error_message :: string
  err_schema :: json
  err_state :: json
  err_base :: "pydict option"
  err_path :: "string option"

definition ErrorResponse_init ::
  "string \<Rightarrow> json \<Rightarrow> json \<Rightarrow> pydict option \<Rightarrow> string option \<Rightarrow> error + ErrorResponse"
where
  "ErrorResponse_init msg sch st b p =
     (if p \<noteq> None \<and> b = None then Inl ValueError
      else Inr \<lparr>error_message = msg, err_schema = sch, err_state = st, err_base = b,
                err_path = p\<rparr>)"

text \<open>
  The emitters of \<open>ErrorResponse\<close> write the schema when it is truthy (\<open>if self.schema:\<close>),
  not when it is other than \<open>None\<close>.
\<close>

definition err_get_payload :: "ErrorResponse \<Rightarrow> bool \<Rightarrow> error + pydict" where
  "err_get_payload self serialized_state =
     (let payload = [(RESPONSE_FIELD, JStr ''error''), (ERROR_FIELD, JStr (error_message self))];
          payload = (if py_bool (err_schema self)
                     then AList.update SCHEMA_FIELD (err_schema self) payload else payload)
      in case set_state (err_state self) serialized_state payload of
           Inl e \<Rightarrow> Inl e
         | Inr payload \<Rightarrow>
             (case err_base self of
                None \<Rightarrow> Inr payload
              | Some b \<Rightarrow>
                  Inr (set_path (err_path self) (AList.update BASE_FIELD (JObj b) payload))))"

definition err_get_headers :: "ErrorResponse \<Rightarrow> bool \<Rightarrow> error + pydict" where
  "err_get_headers self serialized_state =
     (let headers = [(RESPONSE_FIELD, JStr ''error''), (ERROR_FIELD, JStr (error_message self))];
          headers = (if py_bool (err_schema self)
                     then AList.update SCHEMA_FIELD (JStr (serialize (err_schema self))) headers
                     else headers)
      in case set_state (err_state self) serialized_state headers of
           Inl e \<Rightarrow> Inl e
         | Inr headers \<Rightarrow>
             (case err_base self of
                None \<Rightarrow> Inr headers
              | Some b \<Rightarrow>
                  Inr (set_path (err_path self)
                         (AList.update BASE_FIELD (JStr (serialize (JObj b))) headers))))"

text \<open>
  For the statements about \<open>_identify\<close>: the value of the last entry of the mapping whose
  key is the state field, and \<open>st\<close> when there is none.
\<close>

definition carried_state :: "pydict \<Rightarrow> json \<Rightarrow> json" where
  "carried_state d st =
     (case filter (\<lambda>(k, v). lower k = lower STATE_FIELD) d of [] \<Rightarrow> st | fs \<Rightarrow> snd (last fs))"

section \<open>Auxiliary predicates\<close>




section \<open>Evaluation and basic facts\<close>

lemmas field_defs = FIELD_PREFIX_def REQUEST_FIELD_def RESPONSE_FIELD_def SCHEMA_FIELD_def
  INSTRUCTIONS_FIELD_def CLIENT_FIELD_def ERROR_FIELD_def STATE_FIELD_def BASE_FIELD_def
  PATH_FIELD_def

lemmas eval_simps = field_defs lower_def lower_char_def char_of_eq_iff

lemma py_eq_JStr: "py_eq v (JStr s) \<longleftrightarrow> v = JStr s"
  by (cases v) auto

section \<open>Raw state strings\<close>

text \<open>
  C2. With \<open>serialized = False\<close> the string \<open>abc def\<close> is returned unchanged, although it
  holds a space: the pattern is tried at the first character only.
\<close>

theorem serialize_state_abc_def:
  "serialize_state (JStr ''abc def'') False = Inr ''abc def''"
  by (simp add: serialize_state_def re_match_def pattern_set_def)

text \<open>
  C4. With \<open>serialized = False\<close> the one-character string \<open>-\<close> is refused with a
  ValueError: in the pattern the hyphen stands between \<open>;\<close> and \<open>_\<close> and so denotes a
  range, not itself.
\<close>

theorem serialize_state_hyphen:
  "serialize_state (JStr ''-'') False = Inl ValueError"
  by (simp add: serialize_state_def re_match_def pattern_set_def)

section \<open>Base64: decoding an encoded byte string\<close>
















section \<open>JSON strings: scanning an encoded string\<close>







section \<open>JSON integers\<close>















section \<open>JSON values: decoding an encoded value\<close>




















section \<open>The encoder writes printable ASCII\<close>











section \<open>Decoding the text of the encoder\<close>




section \<open>Schema requests\<close>

lemma is_schema_request_find:
  "is_schema_request d =
     (case find (\<lambda>(k, v). lower k = lower REQUEST_FIELD) d of
        None \<Rightarrow> False
      | Some (k, v) \<Rightarrow> v = JStr ''schema'')"
  by (induction d) (auto simp: py_eq_JStr)

lemma find_unique:
  "length (filter P xs) \<le> 1 \<Longrightarrow> (find P xs = Some x) = (x \<in> set xs \<and> P x)"
proof (induction xs)
  case Nil
  then show ?case by simp
next
  case (Cons a xs)
  show ?case
  proof (cases "P a")
    case True
    with Cons.prems have "filter P xs = []" by simp
    then have "\<forall>y\<in>set xs. \<not> P y" by (simp add: filter_empty_conv)
    with True show ?thesis by auto
  next
    case False
    with Cons show ?thesis by auto
  qed
qed

lemma is_schema_request_unique:
  assumes "length (filter (\<lambda>(k, v). lower k = lower REQUEST_FIELD) d) \<le> 1"
  shows "is_schema_request d \<longleftrightarrow>
         (\<exists>(k, v)\<in>set d. lower k = lower REQUEST_FIELD \<and> v = JStr ''schema'')"
proof -
  let ?P = "\<lambda>(k, v). lower k = lower REQUEST_FIELD"
  have "is_schema_request d \<longleftrightarrow> (\<exists>k. find ?P d = Some (k, JStr ''schema''))"
    by (auto simp: is_schema_request_find split: option.splits)
  also have "\<dots> \<longleftrightarrow> (\<exists>k. (k, JStr ''schema'') \<in> set d \<and> ?P (k, JStr ''schema''))"
    using find_unique [OF assms] by simp
  also have "\<dots> \<longleftrightarrow> (\<exists>(k, v)\<in>set d. lower k = lower REQUEST_FIELD \<and> v = JStr ''schema'')"
    by auto
  finally show ?thesis .
qed

text \<open>
  C5, as the code has it. \<open>is_schema_request\<close> is decided by the first entry, in iteration
  order, whose key equals the request field without regard to case: the result is whether
  the value of that entry is the string \<open>schema\<close>, and it is false when no key matches.
  When at most one key of the mapping matches, the result is true exactly when some entry
  has a matching key and the value \<open>schema\<close>, and then it is the same for every
  reordering of the entries.
\<close>

theorem is_schema_request_first_match:
  "is_schema_request d =
     (case find (\<lambda>(k, v). lower k = lower REQUEST_FIELD) d of
        None \<Rightarrow> False
      | Some (k, v) \<Rightarrow> v = JStr ''schema'')
   \<and> (length (filter (\<lambda>(k, v). lower k = lower REQUEST_FIELD) d) \<le> 1 \<longrightarrow>
        (is_schema_request d \<longleftrightarrow>
           (\<exists>(k, v)\<in>set d. lower k = lower REQUEST_FIELD \<and> v = JStr ''schema''))
        \<and> (\<forall>d'. mset d' = mset d \<longrightarrow> is_schema_request d' = is_schema_request d))"
proof (intro conjI impI allI)
  show "is_schema_request d =
     (case find (\<lambda>(k, v). lower k = lower REQUEST_FIELD) d of
        None \<Rightarrow> False
      | Some (k, v) \<Rightarrow> v = JStr ''schema'')"
    by (rule is_schema_request_find)
next
  assume u: "length (filter (\<lambda>(k, v). lower k = lower REQUEST_FIELD) d) \<le> 1"
  then show "is_schema_request d \<longleftrightarrow>
           (\<exists>(k, v)\<in>set d. lower k = lower REQUEST_FIELD \<and> v = JStr ''schema'')"
    by (rule is_schema_request_unique)
next
  fix d'
  assume u: "length (filter (\<lambda>(k, v). lower k = lower REQUEST_FIELD) d) \<le> 1"
    and p: "mset d' = mset d"
  from p have "mset (filter (\<lambda>(k, v). lower k = lower REQUEST_FIELD) d')
             = mset (filter (\<lambda>(k, v). lower k = lower REQUEST_FIELD) d)"
    by simp
  then have "length (filter (\<lambda>(k, v). lower k = lower REQUEST_FIELD) d')
           = length (filter (\<lambda>(k, v). lower k = lower REQUEST_FIELD) d)"
    by (metis size_mset)
  with u have u': "length (filter (\<lambda>(k, v). lower k = lower REQUEST_FIELD) d') \<le> 1"
    by simp
  from p have "set d' = set d" by (rule mset_eq_setD)
  then show "is_schema_request d' = is_schema_request d"
    by (simp add: is_schema_request_unique [OF u] is_schema_request_unique [OF u'])
qed

text \<open>The theorem at a mapping with one matching key, in both orders.\<close>

theorem is_schema_request_first_match_witness:
  "length (filter (\<lambda>(k, v). lower k = lower REQUEST_FIELD)
             [(''X-Api-Concierge-Request'', JStr ''schema''), (''foo'', JInt 1)]) \<le> 1
   \<and> is_schema_request [(''X-Api-Concierge-Request'', JStr ''schema''), (''foo'', JInt 1)]
   \<and> is_schema_request [(''foo'', JInt 1), (''X-Api-Concierge-Request'', JStr ''schema'')]"
  using is_schema_request_first_match
          [of "[(''X-Api-Concierge-Request'', JStr ''schema''), (''foo'', JInt 1)]"]
  by (simp add: field_defs lower_def lower_char_def char_of_eq_iff)

text \<open>
  C5 as stated fails when two keys differ in case only: with the value \<open>invoke\<close> first and
  \<open>schema\<close> second the result is false although a matching key carries \<open>schema\<close>, and
  with the two entries exchanged it is true.
\<close>

theorem is_schema_request_order_counterexample:
  "is_schema_request [(''X-API-CONCIERGE-REQUEST'', JStr ''invoke''),
                       (''x-api-concierge-request'', JStr ''schema'')] = False
   \<and> lower ''x-api-concierge-request'' = lower REQUEST_FIELD
   \<and> is_schema_request [(''x-api-concierge-request'', JStr ''schema''),
                         (''X-API-CONCIERGE-REQUEST'', JStr ''invoke'')] = True"
  by (simp add: field_defs lower_def lower_char_def char_of_eq_iff)

lemma client_loop_find:
  "client_loop d =
     (case find (\<lambda>(k, v). lower k = lower CLIENT_FIELD) d of None \<Rightarrow> JNull | Some (k, v) \<Rightarrow> v)"
  by (induction d) auto

text \<open>
  C9. \<open>SchemaRequest.load\<close> raises \<open>InvalidRequestError\<close>, and nothing else, exactly when
  \<open>is_schema_request\<close> is false. Otherwise it returns a request whose \<open>client\<close> is the
  value of the first entry whose key equals the client field without regard to case, and
  \<open>None\<close> when there is no such entry. The mapping of the example yields \<open>c1\<close>.
\<close>

theorem load_schema_request:
  "(load d = Inl InvalidRequestError \<longleftrightarrow> \<not> is_schema_request d)
   \<and> ((\<exists>e. load d = Inl e) \<longleftrightarrow> \<not> is_schema_request d)
   \<and> (is_schema_request d \<longrightarrow>
        load d = Inr \<lparr>client =
          (case find (\<lambda>(k, v). lower k = lower CLIENT_FIELD) d of
             None \<Rightarrow> JNull
           | Some (k, v) \<Rightarrow> v)\<rparr>)
   \<and> load [(''x-api-concierge-request'', JStr ''schema''),
            (''x-api-concierge-client'', JStr ''c1'')] = Inr \<lparr>client = JStr ''c1''\<rparr>"
proof (intro conjI)
  show "load [(''x-api-concierge-request'', JStr ''schema''),
              (''x-api-concierge-client'', JStr ''c1'')] = Inr \<lparr>client = JStr ''c1''\<rparr>"
    by (simp add: load_def eval_simps)
qed (auto simp: load_def client_loop_find)

text \<open>The theorem at a schema request with a client and at a mapping that is none.\<close>

theorem load_schema_request_witness:
  "is_schema_request [(''X-Api-Concierge-Client'', JInt 7), (''X-API-CONCIERGE-REQUEST'', JStr ''schema'')]
   \<and> load [(''X-Api-Concierge-Client'', JInt 7), (''X-API-CONCIERGE-REQUEST'', JStr ''schema'')]
       = Inr \<lparr>client = JInt 7\<rparr>
   \<and> \<not> is_schema_request [(''x-api-concierge-request'', JStr ''invoke'')]
   \<and> load [(''x-api-concierge-request'', JStr ''invoke'')] = Inl InvalidRequestError"
  using load_schema_request
          [of "[(''X-Api-Concierge-Client'', JInt 7), (''X-API-CONCIERGE-REQUEST'', JStr ''schema'')]"]
        load_schema_request [of "[(''x-api-concierge-request'', JStr ''invoke'')]"]
  by (simp add: eval_simps)

section \<open>Invocation requests\<close>

lemma request_state_differ: "lower REQUEST_FIELD \<noteq> lower STATE_FIELD"
  by (simp add: eval_simps)

lemma identify_loop_eq:
  "identify_loop d request st =
     (if (\<exists>(k, v)\<in>set d. lower k = lower REQUEST_FIELD \<and> v \<noteq> JStr ''invoke'')
        then (False, JNull)
      else if request = JNull \<and> \<not> (\<exists>(k, v)\<in>set d. lower k = lower REQUEST_FIELD)
        then (False, JNull)
      else (True, carried_state d st))"
proof (induction d arbitrary: request st)
  case Nil
  then show ?case by (simp add: carried_state_def)
next
  case (Cons a d)
  obtain k v where a: "a = (k, v)" by (cases a)
  show ?case
  proof (cases "lower k = lower REQUEST_FIELD")
    case True
    then have ns: "lower k \<noteq> lower STATE_FIELD" using request_state_differ by simp
    show ?thesis
    proof (cases "v = JStr ''invoke''")
      case True
      with \<open>lower k = lower REQUEST_FIELD\<close> ns show ?thesis
        by (simp add: a Cons.IH py_eq_JStr carried_state_def)
    next
      case False
      with \<open>lower k = lower REQUEST_FIELD\<close> show ?thesis
        by (auto simp: a py_eq_JStr)
    qed
  next
    case False
    show ?thesis
    proof (cases "lower k = lower STATE_FIELD")
      case True
      with False show ?thesis
        by (simp add: a Cons.IH carried_state_def split: list.splits)
    next
      case nst: False
      with False show ?thesis
        by (simp add: a Cons.IH carried_state_def)
    qed
  qed
qed

lemma deserialize_state_None: "deserialize_state JNull True = Inl InvalidStateError"
  by (simp add: deserialize_state_def urlsafe_b64decode_def)

lemma identify_eq:
  "identify d =
     (if (\<exists>(k, v)\<in>set d. lower k = lower REQUEST_FIELD \<and> v \<noteq> JStr ''invoke'')
           \<or> \<not> (\<exists>(k, v)\<in>set d. lower k = lower REQUEST_FIELD)
      then (False, JNull) else (True, carried_state d JNull))"
  by (simp add: identify_def identify_loop_eq)

lemma carried_state_absent:
  "\<forall>(k, v)\<in>set d. lower k \<noteq> lower STATE_FIELD \<Longrightarrow> carried_state d st = st"
proof -
  assume "\<forall>(k, v)\<in>set d. lower k \<noteq> lower STATE_FIELD"
  then have "filter (\<lambda>(k, v). lower k = lower STATE_FIELD) d = []"
    by (auto simp: filter_empty_conv)
  then show ?thesis by (simp add: carried_state_def)
qed

text \<open>
  C10. When the mapping is identified as an invocation request and has no entry whose key is
  the state field, \<open>is_invocation_request\<close> with an expected state other than \<open>None\<close> and
  \<open>serialized_state = True\<close> raises \<open>InvalidStateError\<close>: the absent state is \<open>None\<close>,
  which the base64 decoder refuses.
\<close>

theorem is_invocation_request_no_state:
  assumes "fst (identify d)"
    and "\<forall>(k, v)\<in>set d. lower k \<noteq> lower STATE_FIELD"
    and "X \<noteq> JNull"
  shows "is_invocation_request d X True = Inl InvalidStateError"
proof -
  from assms(1) have "identify d = (True, carried_state d JNull)"
    by (simp add: identify_eq split: if_splits)
  with assms(2) have "identify d = (True, JNull)"
    by (simp add: carried_state_absent)
  with assms(3) show ?thesis
    by (simp add: is_invocation_request_def deserialize_state_None)
qed

text \<open>The theorem at an invocation without state.\<close>

theorem is_invocation_request_no_state_witness:
  "fst (identify [(''X-Api-Concierge-Request'', JStr ''invoke''), (''foo'', JInt 1)])
   \<and> list_all (\<lambda>(k, v). lower k \<noteq> lower STATE_FIELD)
        [(''X-Api-Concierge-Request'', JStr ''invoke''), (''foo'', JInt 1)]
   \<and> JStr ''token'' \<noteq> JNull
   \<and> is_invocation_request [(''X-Api-Concierge-Request'', JStr ''invoke''), (''foo'', JInt 1)]
        (JStr ''token'') True = Inl InvalidStateError"
proof -
  have a: "fst (identify [(''X-Api-Concierge-Request'', JStr ''invoke''), (''foo'', JInt 1)])"
    by (simp add: identify_def eval_simps)
  have b: "\<forall>(k, v)\<in>set [(''X-Api-Concierge-Request'', JStr ''invoke''), (''foo'', JInt 1)].
         lower k \<noteq> lower STATE_FIELD"
    by (simp add: eval_simps)
  have c: "JStr ''token'' \<noteq> JNull" by simp
  from is_invocation_request_no_state [OF a b c] a b c show ?thesis
    by (simp add: list_all_iff)
qed

lemma deserialize_example:
  "deserialize_state (JStr ''eyJuIjogMX0='') True = Inr (JObj [(''n'', JInt 1)])"
  by code_simp

text \<open>
  C6. Let the expected state \<open>X\<close> be other than \<open>None\<close> and \<open>serialized_state\<close> be true.
  If \<open>is_invocation_request\<close> returns true, then some entry has the request field as key
  (without regard to case) and the value \<open>invoke\<close>, no entry with that key has another
  value, the mapping is identified as an invocation, and the state it carries decodes to a
  value equal to \<open>X\<close> in Python's sense. Conversely, when the mapping is identified and
  its state decodes to a value that \<open>X\<close> is not equal to, the result is false.
\<close>

theorem is_invocation_request_pinned:
  assumes "X \<noteq> JNull"
  shows "(is_invocation_request d X True = Inr True \<longrightarrow>
            (\<exists>(k, v)\<in>set d. lower k = lower REQUEST_FIELD \<and> v = JStr ''invoke'')
          \<and> (\<forall>(k, v)\<in>set d. lower k = lower REQUEST_FIELD \<longrightarrow> v = JStr ''invoke'')
          \<and> identify d = (True, carried_state d JNull)
          \<and> (\<exists>v. deserialize_state (carried_state d JNull) True = Inr v \<and> py_eq X v))
       \<and> (\<forall>v. fst (identify d) \<and> deserialize_state (carried_state d JNull) True = Inr v
               \<and> \<not> py_eq X v \<longrightarrow> is_invocation_request d X True = Inr False)"
proof (intro conjI impI allI)
  assume t: "is_invocation_request d X True = Inr True"
  then have i: "fst (identify d)"
    by (auto simp: is_invocation_request_def split: prod.splits if_splits)
  then show "\<exists>(k, v)\<in>set d. lower k = lower REQUEST_FIELD \<and> v = JStr ''invoke''"
    by (simp add: identify_eq split: if_splits) blast
  from i show "\<forall>(k, v)\<in>set d. lower k = lower REQUEST_FIELD \<longrightarrow> v = JStr ''invoke''"
    by (simp add: identify_eq split: if_splits) blast
  from i show e: "identify d = (True, carried_state d JNull)"
    by (simp add: identify_eq split: if_splits)
  from t e assms show "\<exists>v. deserialize_state (carried_state d JNull) True = Inr v \<and> py_eq X v"
    by (auto simp: is_invocation_request_def split: sum.splits)
next
  fix v
  assume h: "fst (identify d) \<and> deserialize_state (carried_state d JNull) True = Inr v
               \<and> \<not> py_eq X v"
  then have "identify d = (True, carried_state d JNull)"
    by (simp add: identify_eq split: if_splits)
  with h assms show "is_invocation_request d X True = Inr False"
    by (simp add: is_invocation_request_def)
qed

text \<open>
  The theorem at an invocation that carries the serialized dictionary \<open>{"n": 1}\<close>: true
  for that expected state, false for \<open>{"n": 2}\<close>.
\<close>

theorem is_invocation_request_pinned_witness:
  "is_invocation_request
     [(''X-Api-Concierge-Request'', JStr ''invoke''),
      (''x-api-concierge-state'', JStr ''eyJuIjogMX0=''), (''foo'', JInt 1)]
     (JObj [(''n'', JInt 1)]) True = Inr True
   \<and> carried_state
       [(''X-Api-Concierge-Request'', JStr ''invoke''),
        (''x-api-concierge-state'', JStr ''eyJuIjogMX0=''), (''foo'', JInt 1)] JNull
     = JStr ''eyJuIjogMX0=''
   \<and> is_invocation_request
     [(''X-Api-Concierge-Request'', JStr ''invoke''),
      (''x-api-concierge-state'', JStr ''eyJuIjogMX0=''), (''foo'', JInt 1)]
     (JObj [(''n'', JInt 2)]) True = Inr False"
proof -
  let ?d = "[(''X-Api-Concierge-Request'', JStr ''invoke''),
      (''x-api-concierge-state'', JStr ''eyJuIjogMX0=''), (''foo'', JInt 1)]"
  have c: "carried_state ?d JNull = JStr ''eyJuIjogMX0=''"
    by (simp add: carried_state_def eval_simps)
  have i: "identify ?d = (True, JStr ''eyJuIjogMX0='')"
    by (simp add: identify_def eval_simps)
  have t: "is_invocation_request ?d (JObj [(''n'', JInt 1)]) True = Inr True"
    by (simp add: is_invocation_request_def i deserialize_example)
  have n: "\<not> py_eq (JObj [(''n'', JInt 2)]) (JObj [(''n'', JInt 1)])" by simp
  have "is_invocation_request ?d (JObj [(''n'', JInt 2)]) True = Inr False"
    using is_invocation_request_pinned [of "JObj [(''n'', JInt 2)]" ?d] i c n
    by (simp add: deserialize_example)
  with t c show ?thesis by simp
qed

text \<open>
  C1. The first mapping holds the request field, then the client field, then the entry
  \<open>foo\<close>. The loop that builds the payload leaves at the client field, so \<open>foo\<close> is
  never copied and the payload is empty. In the second mapping the request field is written
  with capitals; the test for the reserved prefix is case-sensitive, so that entry is copied
  into the payload.
\<close>

theorem load_from_payload_drops_entries:
  "load_from_payload [(''x-api-concierge-request'', JStr ''invoke''),
                      (''x-api-concierge-client'', JStr ''c1''),
                      (''foo'', JInt 1)] True
   = Inr \<lparr>payload = JObj [], inv_client = JStr ''c1'', inv_state = JNull\<rparr>
   \<and> load_from_payload [(''X-Api-Concierge-Request'', JStr ''invoke''), (''foo'', JInt 1)] True
   = Inr \<lparr>payload = JObj [(''X-Api-Concierge-Request'', JStr ''invoke''), (''foo'', JInt 1)],
          inv_client = JNull, inv_state = JNull\<rparr>"
  by (simp add: load_from_payload_def identify_def startswith_def eval_simps)

section \<open>Responses\<close>

lemma field_names_differ:
  "distinct [RESPONSE_FIELD, SCHEMA_FIELD, INSTRUCTIONS_FIELD, STATE_FIELD, BASE_FIELD,
             PATH_FIELD, ERROR_FIELD]"
  "distinct [ERROR_FIELD, PATH_FIELD, BASE_FIELD, STATE_FIELD, INSTRUCTIONS_FIELD,
             SCHEMA_FIELD, RESPONSE_FIELD]"
  by (simp_all add: field_defs)

lemmas field_neq = field_names_differ [simplified]

lemma map_of_set_instructions:
  "map_of (set_instructions ins d) k
     = (if k = INSTRUCTIONS_FIELD \<and> ins \<noteq> None then map_option JStr ins else map_of d k)"
  by (cases ins) (simp_all add: set_instructions_def update_conv')

lemma map_of_set_path:
  "map_of (set_path p d) k
     = (if k = PATH_FIELD \<and> p \<noteq> None then map_option JStr p else map_of d k)"
  by (cases p) (simp_all add: set_path_def update_conv')

lemma set_state_Inr:
  "set_state st ss d = Inr d' \<longleftrightarrow>
     (st = JNull \<and> d' = d)
     \<or> (st \<noteq> JNull \<and> (\<exists>s. serialize_state st ss = Inr s \<and> d' = AList.update STATE_FIELD (JStr s) d))"
  by (auto simp: set_state_def split: sum.splits)

lemma map_of_set_state:
  "set_state st ss d = Inr d' \<Longrightarrow>
   map_of d' k = (if k = STATE_FIELD \<and> st \<noteq> JNull
                  then (case serialize_state st ss of Inr s \<Rightarrow> Some (JStr s) | Inl e \<Rightarrow> None)
                  else map_of d k)"
  by (auto simp: set_state_Inr update_conv')

lemma set_state_True: "\<exists>d'. set_state st True d = Inr d'"
  by (simp add: set_state_def serialize_state_def)

lemma get_payload_fields:
  assumes "get_payload r ss = Inr pl"
  shows "map_of pl RESPONSE_FIELD = Some (JStr ''schema'')"
    and "map_of pl SCHEMA_FIELD = Some (schema r)"
    and "map_of pl INSTRUCTIONS_FIELD = map_option JStr (instructions r)"
    and "map_of pl BASE_FIELD = map_option JObj (base r)"
    and "map_of pl PATH_FIELD = (if base r = None then None else map_option JStr (path r))"
proof -
  let ?p0 = "set_instructions (instructions r)
               [(RESPONSE_FIELD, JStr ''schema''), (SCHEMA_FIELD, schema r)]"
  from assms obtain p1 where s: "set_state (state r) ss ?p0 = Inr p1"
    and pl: "pl = (case base r of None \<Rightarrow> p1
                   | Some b \<Rightarrow> set_path (path r) (AList.update BASE_FIELD (JObj b) p1))"
    by (auto simp: get_payload_def Let_def split: sum.splits option.splits)
  note m = map_of_set_state [OF s] map_of_set_instructions map_of_set_path update_conv'
  show "map_of pl RESPONSE_FIELD = Some (JStr ''schema'')"
    by (cases "base r") (simp_all add: pl m field_neq)
  show "map_of pl SCHEMA_FIELD = Some (schema r)"
    by (cases "base r") (simp_all add: pl m field_neq)
  show "map_of pl INSTRUCTIONS_FIELD = map_option JStr (instructions r)"
    by (cases "base r"; cases "instructions r") (simp_all add: pl m field_neq)
  show "map_of pl BASE_FIELD = map_option JObj (base r)"
    by (cases "base r") (simp_all add: pl m field_neq)
  show "map_of pl PATH_FIELD = (if base r = None then None else map_option JStr (path r))"
    by (cases "base r"; cases "path r") (simp_all add: pl m field_neq)
qed

lemma get_payload_True: "\<exists>pl. get_payload r True = Inr pl"
proof -
  obtain p1 where "set_state (state r) True
      (set_instructions (instructions r)
         [(RESPONSE_FIELD, JStr ''schema''), (SCHEMA_FIELD, schema r)]) = Inr p1"
    using set_state_True by blast
  then show ?thesis
    by (cases "base r") (simp_all add: get_payload_def Let_def)
qed

lemma get_headers_True: "\<exists>h. get_headers r True = Inr h"
proof -
  obtain p1 where "set_state (state r) True
      (set_instructions (instructions r)
         [(RESPONSE_FIELD, JStr ''schema''), (SCHEMA_FIELD, JStr (serialize (schema r)))])
      = Inr p1"
    using set_state_True by blast
  then show ?thesis
    by (cases "base r") (simp_all add: get_headers_def Let_def)
qed

lemma get_headers_fields:
  assumes "get_headers r ss = Inr h"
  shows "map_of h RESPONSE_FIELD = Some (JStr ''schema'')"
    and "map_of h SCHEMA_FIELD = Some (JStr (serialize (schema r)))"
    and "map_of h INSTRUCTIONS_FIELD = map_option JStr (instructions r)"
    and "map_of h BASE_FIELD = map_option (\<lambda>b. JStr (serialize (JObj b))) (base r)"
    and "map_of h PATH_FIELD = (if base r = None then None else map_option JStr (path r))"
    and "map_of h STATE_FIELD
           = (if state r = JNull then None
              else case serialize_state (state r) ss of Inr s \<Rightarrow> Some (JStr s) | Inl e \<Rightarrow> None)"
proof -
  let ?p0 = "set_instructions (instructions r)
               [(RESPONSE_FIELD, JStr ''schema''), (SCHEMA_FIELD, JStr (serialize (schema r)))]"
  from assms obtain p1 where s: "set_state (state r) ss ?p0 = Inr p1"
    and h: "h = (case base r of None \<Rightarrow> p1
                 | Some b \<Rightarrow> set_path (path r)
                     (AList.update BASE_FIELD (JStr (serialize (JObj b))) p1))"
    by (auto simp: get_headers_def Let_def split: sum.splits option.splits)
  note m = map_of_set_state [OF s] map_of_set_instructions map_of_set_path update_conv'
  show "map_of h RESPONSE_FIELD = Some (JStr ''schema'')"
    by (cases "base r") (simp_all add: h m field_neq)
  show "map_of h SCHEMA_FIELD = Some (JStr (serialize (schema r)))"
    by (cases "base r") (simp_all add: h m field_neq)
  show "map_of h INSTRUCTIONS_FIELD = map_option JStr (instructions r)"
    by (cases "base r"; cases "instructions r") (simp_all add: h m field_neq)
  show "map_of h BASE_FIELD = map_option (\<lambda>b. JStr (serialize (JObj b))) (base r)"
    by (cases "base r") (simp_all add: h m field_neq)
  show "map_of h PATH_FIELD = (if base r = None then None else map_option JStr (path r))"
    by (cases "base r"; cases "path r") (simp_all add: h m field_neq)
  show "map_of h STATE_FIELD
           = (if state r = JNull then None
              else case serialize_state (state r) ss of Inr s \<Rightarrow> Some (JStr s) | Inl e \<Rightarrow> None)"
    by (cases "base r"; cases "instructions r") (simp_all add: h m field_neq)
qed

lemma err_get_payload_True: "\<exists>pl. err_get_payload r True = Inr pl"
proof -
  obtain p1 where "set_state (err_state r) True
      (if py_bool (err_schema r)
       then AList.update SCHEMA_FIELD (err_schema r)
              [(RESPONSE_FIELD, JStr ''error''), (ERROR_FIELD, JStr (error_message r))]
       else [(RESPONSE_FIELD, JStr ''error''), (ERROR_FIELD, JStr (error_message r))]) = Inr p1"
    using set_state_True by blast
  then show ?thesis
    by (cases "err_base r") (simp_all add: err_get_payload_def Let_def)
qed

lemma err_get_headers_True: "\<exists>h. err_get_headers r True = Inr h"
proof -
  obtain p1 where "set_state (err_state r) True
      (if py_bool (err_schema r)
       then AList.update SCHEMA_FIELD (JStr (serialize (err_schema r)))
              [(RESPONSE_FIELD, JStr ''error''), (ERROR_FIELD, JStr (error_message r))]
       else [(RESPONSE_FIELD, JStr ''error''), (ERROR_FIELD, JStr (error_message r))]) = Inr p1"
    using set_state_True by blast
  then show ?thesis
    by (cases "err_base r") (simp_all add: err_get_headers_def Let_def)
qed

lemma err_get_payload_fields:
  assumes "err_get_payload r ss = Inr pl"
  shows "map_of pl BASE_FIELD = map_option JObj (err_base r)"
    and "map_of pl PATH_FIELD
           = (if err_base r = None then None else map_option JStr (err_path r))"
proof -
  let ?p0 = "if py_bool (err_schema r)
       then AList.update SCHEMA_FIELD (err_schema r)
              [(RESPONSE_FIELD, JStr ''error''), (ERROR_FIELD, JStr (error_message r))]
       else [(RESPONSE_FIELD, JStr ''error''), (ERROR_FIELD, JStr (error_message r))]"
  from assms obtain p1 where s: "set_state (err_state r) ss ?p0 = Inr p1"
    and pl: "pl = (case err_base r of None \<Rightarrow> p1
                   | Some b \<Rightarrow> set_path (err_path r) (AList.update BASE_FIELD (JObj b) p1))"
    by (auto simp: err_get_payload_def Let_def split: sum.splits option.splits)
  note m = map_of_set_state [OF s] map_of_set_path update_conv'
  show "map_of pl BASE_FIELD = map_option JObj (err_base r)"
    by (cases "err_base r") (simp_all add: pl m field_neq)
  show "map_of pl PATH_FIELD
           = (if err_base r = None then None else map_option JStr (err_path r))"
    by (cases "err_base r"; cases "err_path r") (simp_all add: pl m field_neq)
qed

lemma err_get_headers_fields:
  assumes "err_get_headers r ss = Inr h"
  shows "map_of h BASE_FIELD = map_option (\<lambda>b. JStr (serialize (JObj b))) (err_base r)"
    and "map_of h PATH_FIELD
           = (if err_base r = None then None else map_option JStr (err_path r))"
proof -
  let ?p0 = "if py_bool (err_schema r)
       then AList.update SCHEMA_FIELD (JStr (serialize (err_schema r)))
              [(RESPONSE_FIELD, JStr ''error''), (ERROR_FIELD, JStr (error_message r))]
       else [(RESPONSE_FIELD, JStr ''error''), (ERROR_FIELD, JStr (error_message r))]"
  from assms obtain p1 where s: "set_state (err_state r) ss ?p0 = Inr p1"
    and h: "h = (case err_base r of None \<Rightarrow> p1
                 | Some b \<Rightarrow> set_path (err_path r)
                     (AList.update BASE_FIELD (JStr (serialize (JObj b))) p1))"
    by (auto simp: err_get_headers_def Let_def split: sum.splits option.splits)
  note m = map_of_set_state [OF s] map_of_set_path update_conv'
  show "map_of h BASE_FIELD = map_option (\<lambda>b. JStr (serialize (JObj b))) (err_base r)"
    by (cases "err_base r") (simp_all add: h m field_neq)
  show "map_of h PATH_FIELD
           = (if err_base r = None then None else map_option JStr (err_path r))"
    by (cases "err_base r"; cases "err_path r") (simp_all add: h m field_neq)
qed

text \<open>
  C7. Constructing a \<open>SchemaResponse\<close> or an \<open>ErrorResponse\<close> with a path and without a
  base raises \<open>ValueError\<close>. With both, construction succeeds; the emitters succeed with
  the default flag, and whenever they succeed the payload holds the base dictionary and the
  path string as given, and the headers hold the base64 text of the JSON text of the base
  and the path string as given.
\<close>

theorem path_requires_base:
  "SchemaResponse_init sch ins st None (Some p) = Inl ValueError
   \<and> ErrorResponse_init msg sch st None (Some p) = Inl ValueError
   \<and> (\<exists>r. SchemaResponse_init sch ins st (Some b) (Some p) = Inr r
          \<and> (\<exists>pl. get_payload r True = Inr pl) \<and> (\<exists>h. get_headers r True = Inr h)
          \<and> (\<forall>ss pl. get_payload r ss = Inr pl \<longrightarrow>
                map_of pl BASE_FIELD = Some (JObj b) \<and> map_of pl PATH_FIELD = Some (JStr p))
          \<and> (\<forall>ss h. get_headers r ss = Inr h \<longrightarrow>
                map_of h BASE_FIELD = Some (JStr (urlsafe_b64encode (json_dumps (JObj b))))
                \<and> map_of h PATH_FIELD = Some (JStr p)))
   \<and> (\<exists>r. ErrorResponse_init msg sch st (Some b) (Some p) = Inr r
          \<and> (\<exists>pl. err_get_payload r True = Inr pl) \<and> (\<exists>h. err_get_headers r True = Inr h)
          \<and> (\<forall>ss pl. err_get_payload r ss = Inr pl \<longrightarrow>
                map_of pl BASE_FIELD = Some (JObj b) \<and> map_of pl PATH_FIELD = Some (JStr p))
          \<and> (\<forall>ss h. err_get_headers r ss = Inr h \<longrightarrow>
                map_of h BASE_FIELD = Some (JStr (urlsafe_b64encode (json_dumps (JObj b))))
                \<and> map_of h PATH_FIELD = Some (JStr p)))"
proof (intro conjI)
  show "SchemaResponse_init sch ins st None (Some p) = Inl ValueError"
    by (simp add: SchemaResponse_init_def)
  show "ErrorResponse_init msg sch st None (Some p) = Inl ValueError"
    by (simp add: ErrorResponse_init_def)
  let ?r = "\<lparr>schema = sch, instructions = ins, state = st, base = Some b, path = Some p\<rparr>"
  have "SchemaResponse_init sch ins st (Some b) (Some p) = Inr ?r"
    by (simp add: SchemaResponse_init_def)
  moreover have "\<forall>ss pl. get_payload ?r ss = Inr pl \<longrightarrow>
      map_of pl BASE_FIELD = Some (JObj b) \<and> map_of pl PATH_FIELD = Some (JStr p)"
    using get_payload_fields(4,5) [of ?r] by simp
  moreover have "\<forall>ss h. get_headers ?r ss = Inr h \<longrightarrow>
      map_of h BASE_FIELD = Some (JStr (urlsafe_b64encode (json_dumps (JObj b))))
      \<and> map_of h PATH_FIELD = Some (JStr p)"
    using get_headers_fields(4,5) [of ?r] by (simp add: serialize_def)
  ultimately show "\<exists>r. SchemaResponse_init sch ins st (Some b) (Some p) = Inr r
          \<and> (\<exists>pl. get_payload r True = Inr pl) \<and> (\<exists>h. get_headers r True = Inr h)
          \<and> (\<forall>ss pl. get_payload r ss = Inr pl \<longrightarrow>
                map_of pl BASE_FIELD = Some (JObj b) \<and> map_of pl PATH_FIELD = Some (JStr p))
          \<and> (\<forall>ss h. get_headers r ss = Inr h \<longrightarrow>
                map_of h BASE_FIELD = Some (JStr (urlsafe_b64encode (json_dumps (JObj b))))
                \<and> map_of h PATH_FIELD = Some (JStr p))"
    using get_payload_True [of ?r] get_headers_True [of ?r] by blast
  let ?e = "\<lparr>error_message = msg, err_schema = sch, err_state = st, err_base = Some b,
             err_path = Some p\<rparr>"
  have "ErrorResponse_init msg sch st (Some b) (Some p) = Inr ?e"
    by (simp add: ErrorResponse_init_def)
  moreover have "\<forall>ss pl. err_get_payload ?e ss = Inr pl \<longrightarrow>
      map_of pl BASE_FIELD = Some (JObj b) \<and> map_of pl PATH_FIELD = Some (JStr p)"
    using err_get_payload_fields [of ?e] by simp
  moreover have "\<forall>ss h. err_get_headers ?e ss = Inr h \<longrightarrow>
      map_of h BASE_FIELD = Some (JStr (urlsafe_b64encode (json_dumps (JObj b))))
      \<and> map_of h PATH_FIELD = Some (JStr p)"
    using err_get_headers_fields [of ?e] by (simp add: serialize_def)
  ultimately show "\<exists>r. ErrorResponse_init msg sch st (Some b) (Some p) = Inr r
          \<and> (\<exists>pl. err_get_payload r True = Inr pl) \<and> (\<exists>h. err_get_headers r True = Inr h)
          \<and> (\<forall>ss pl. err_get_payload r ss = Inr pl \<longrightarrow>
                map_of pl BASE_FIELD = Some (JObj b) \<and> map_of pl PATH_FIELD = Some (JStr p))
          \<and> (\<forall>ss h. err_get_headers r ss = Inr h \<longrightarrow>
                map_of h BASE_FIELD = Some (JStr (urlsafe_b64encode (json_dumps (JObj b))))
                \<and> map_of h PATH_FIELD = Some (JStr p))"
    using err_get_payload_True [of ?e] err_get_headers_True [of ?e] by blast
qed

text \<open>The theorem at a schema response with a base and a path.\<close>

theorem path_requires_base_witness:
  "SchemaResponse_init (JObj [(''type'', JStr ''string'')]) None JNull (Some [(''a'', JInt 1)])
      (Some ''/p'')
     = Inr \<lparr>schema = JObj [(''type'', JStr ''string'')], instructions = None, state = JNull,
            base = Some [(''a'', JInt 1)], path = Some ''/p''\<rparr>
   \<and> get_payload \<lparr>schema = JObj [(''type'', JStr ''string'')], instructions = None,
                    state = JNull, base = Some [(''a'', JInt 1)], path = Some ''/p''\<rparr> True
     = Inr [(''x-api-concierge-response'', JStr ''schema''),
            (''x-api-concierge-schema'', JObj [(''type'', JStr ''string'')]),
            (''x-api-concierge-base'', JObj [(''a'', JInt 1)]),
            (''x-api-concierge-path'', JStr ''/p'')]
   \<and> map_of [(''x-api-concierge-response'', JStr ''schema''),
              (''x-api-concierge-schema'', JObj [(''type'', JStr ''string'')]),
              (''x-api-concierge-base'', JObj [(''a'', JInt 1)]),
              (''x-api-concierge-path'', JStr ''/p'')] BASE_FIELD
     = Some (JObj [(''a'', JInt 1)])
   \<and> get_headers \<lparr>schema = JObj [(''type'', JStr ''string'')], instructions = None,
                    state = JNull, base = Some [(''a'', JInt 1)], path = Some ''/p''\<rparr> False
     = Inr [(''x-api-concierge-response'', JStr ''schema''),
            (''x-api-concierge-schema'', JStr ''eyJ0eXBlIjogInN0cmluZyJ9''),
            (''x-api-concierge-base'', JStr ''eyJhIjogMX0=''),
            (''x-api-concierge-path'', JStr ''/p'')]
   \<and> map_of [(''x-api-concierge-response'', JStr ''schema''),
              (''x-api-concierge-schema'', JStr ''eyJ0eXBlIjogInN0cmluZyJ9''),
              (''x-api-concierge-base'', JStr ''eyJhIjogMX0=''),
              (''x-api-concierge-path'', JStr ''/p'')] PATH_FIELD
     = Some (JStr ''/p'')"
proof -
  let ?r = "\<lparr>schema = JObj [(''type'', JStr ''string'')], instructions = None, state = JNull,
            base = Some [(''a'', JInt 1)], path = Some ''/p''\<rparr>"
  let ?pl = "[(''x-api-concierge-response'', JStr ''schema''),
            (''x-api-concierge-schema'', JObj [(''type'', JStr ''string'')]),
            (''x-api-concierge-base'', JObj [(''a'', JInt 1)]),
            (''x-api-concierge-path'', JStr ''/p'')]"
  let ?h = "[(''x-api-concierge-response'', JStr ''schema''),
            (''x-api-concierge-schema'', JStr ''eyJ0eXBlIjogInN0cmluZyJ9''),
            (''x-api-concierge-base'', JStr ''eyJhIjogMX0=''),
            (''x-api-concierge-path'', JStr ''/p'')]"
  have i: "SchemaResponse_init (JObj [(''type'', JStr ''string'')]) None JNull
             (Some [(''a'', JInt 1)]) (Some ''/p'') = Inr ?r"
    by (simp add: SchemaResponse_init_def)
  have s1: "serialize (JObj [(''type'', JStr ''string'')]) = ''eyJ0eXBlIjogInN0cmluZyJ9''"
    by code_simp
  have s2: "serialize (JObj [(''a'', JInt 1)]) = ''eyJhIjogMX0=''"
    by code_simp
  have p: "get_payload ?r True = Inr ?pl"
    by (simp add: get_payload_def set_instructions_def set_state_def set_path_def field_defs)
  have h: "get_headers ?r False = Inr ?h"
    by (simp add: get_headers_def set_instructions_def set_state_def set_path_def field_defs
        s1 s2)
  from path_requires_base [of "JObj [(''type'', JStr ''string'')]" None JNull "''/p''" "''msg''"
      "[(''a'', JInt 1)]"]
  obtain r where ri: "SchemaResponse_init (JObj [(''type'', JStr ''string'')]) None JNull
             (Some [(''a'', JInt 1)]) (Some ''/p'') = Inr r"
    and P: "\<forall>ss pl. get_payload r ss = Inr pl \<longrightarrow>
              map_of pl BASE_FIELD = Some (JObj [(''a'', JInt 1)])
              \<and> map_of pl PATH_FIELD = Some (JStr ''/p'')"
    and H: "\<forall>ss h. get_headers r ss = Inr h \<longrightarrow>
              map_of h BASE_FIELD
                = Some (JStr (urlsafe_b64encode (json_dumps (JObj [(''a'', JInt 1)]))))
              \<and> map_of h PATH_FIELD = Some (JStr ''/p'')"
    by blast
  from ri i have r: "r = ?r" by simp
  from P p have m1: "map_of ?pl BASE_FIELD = Some (JObj [(''a'', JInt 1)])"
    unfolding r by blast
  from H h have m2: "map_of ?h PATH_FIELD = Some (JStr ''/p'')"
    unfolding r by blast
  note m1 m2
  with i p h show ?thesis by (simp only: simp_thms)
qed



end
